theory Spec2Isabelle
  imports Complex_Main
begin

section \<open>Python arithmetic and string helpers\<close>

text \<open>
  Durations, sizes in MB and time stamps are Python floats in the source and real numbers
  here; Python integers are \<open>int\<close>. The splitter's one float expression is computed
  exactly (see the note there); the float operations of the transcription loop and of the
  formatter are taken from a parameter that stands for the machine's arithmetic.
  \<open>py_int\<close> is \<open>int()\<close> on a float: truncation towards zero.
\<close>

definition py_int :: "real \<Rightarrow> int" where
  "py_int x = (if x < 0 then \<lceil>x\<rceil> else \<lfloor>x\<rfloor>)"

definition digit_char :: "nat \<Rightarrow> char" where
  "digit_char d = ''0123456789'' ! d"

fun str_nat :: "nat \<Rightarrow> string" where
  "str_nat n = (if n < 10 then [digit_char n] else str_nat (n div 10) @ [digit_char (n mod 10)])"

declare str_nat.simps [simp del]

section \<open>Chunk splitter\<close>

text \<open>
  The file system is a map from paths to sizes in bytes, together with the log of the
  slices that \<open>chunk.export\<close> wrote. The codec record holds the outcomes of the
  library calls the splitter makes: decoding (the length in ms, or failure), exporting a
  slice (the size written, or failure), removing a file, and \<open>os.path.splitext\<close>.
\<close>

datatype py_error =
    FileNotFoundError | ZeroDivisionError | CouldntDecodeError | ExportError
  | RemoveError | IndexError | BackendError | ConfigError | WriteError
  | DownloadError | AttributeError | TypeError

type_synonym path = string

text \<open>
  Line 96 of the source computes \<open>int(file_size_mb / max_size_mb + 1)\<close> in double
  precision; the model computes the same expression exactly. The two agree at the ceiling
  of 24 MB, which is the parameter's default and the value the only caller passes, for
  sizes below \<open>2^53\<close> bytes. For other ceilings the double quotient may round to a
  neighbouring integer or overflow, so the properties that depend on the chunk count are
  stated at the ceiling 24.
\<close>

record world =
  files :: "path \<rightharpoonup> int"
  exported :: "(path \<times> int \<times> int) list"

record codec =
  from_file :: "path \<Rightarrow> int option"
  export :: "path \<Rightarrow> int \<Rightarrow> int \<Rightarrow> int option"
  remove_ok :: "path \<Rightarrow> bool"
  splitext_root :: "path \<Rightarrow> path"

definition chunk_name :: "path \<Rightarrow> nat \<Rightarrow> path" where
  "chunk_name base_name i = base_name @ ''_chunk_'' @ str_nat (i + 1) @ ''.mp3''"

fun export_chunks ::
  "codec \<Rightarrow> path \<Rightarrow> int \<Rightarrow> int \<Rightarrow> nat list \<Rightarrow> path list \<Rightarrow> world
     \<Rightarrow> (py_error + path list) \<times> world" where
  "export_chunks c base_name total_duration_ms chunk_duration_ms [] chunk_files w =
     (Inr chunk_files, w)"
| "export_chunks c base_name total_duration_ms chunk_duration_ms (i # rest) chunk_files w =
     (let start_time = int i * chunk_duration_ms;
          end_time = min ((int i + 1) * chunk_duration_ms) total_duration_ms;
          chunk_file = chunk_name base_name i
      in case export c chunk_file start_time end_time of
           None \<Rightarrow> (Inl ExportError, w)
         | Some sz \<Rightarrow>
             export_chunks c base_name total_duration_ms chunk_duration_ms rest
               (chunk_files @ [chunk_file])
               (w\<lparr>files := (files w)(chunk_file \<mapsto> sz),
                  exported := exported w @ [(chunk_file, start_time, end_time)]\<rparr>))"

definition split_body :: "codec \<Rightarrow> world \<Rightarrow> path \<Rightarrow> int \<Rightarrow> (py_error + path list) \<times> world" where
  "split_body c w audio_file num_chunks =
     (case from_file c audio_file of
        None \<Rightarrow> (Inl CouldntDecodeError, w)
      | Some total_duration_ms \<Rightarrow>
          if num_chunks = 0 then (Inl ZeroDivisionError, w)
          else
            let chunk_duration_ms = total_duration_ms div num_chunks;
                base_name = splitext_root c audio_file
            in case export_chunks c base_name total_duration_ms chunk_duration_ms
                      [0..<nat num_chunks] [] w of
                 (Inl e, w') \<Rightarrow> (Inl e, w')
               | (Inr chunk_files, w') \<Rightarrow>
                   if remove_ok c audio_file
                   then (Inr chunk_files, w'\<lparr>files := (files w')(audio_file := None)\<rparr>)
                   else (Inl RemoveError, w'))"

definition split_audio_if_needed ::
  "codec \<Rightarrow> world \<Rightarrow> path \<Rightarrow> real \<Rightarrow> (py_error + path list) \<times> world" where
  "split_audio_if_needed c w audio_file max_size_mb =
     (case files w audio_file of
        None \<Rightarrow> (Inl FileNotFoundError, w)
      | Some size_bytes \<Rightarrow>
          let file_size_mb = of_int size_bytes / (1024 * 1024) in
          if file_size_mb \<le> max_size_mb then (Inr [audio_file], w)
          else if max_size_mb = 0 then (Inl ZeroDivisionError, w)
          else
            let num_chunks = py_int (file_size_mb / max_size_mb + 1) in
            case split_body c w audio_file num_chunks of
              (Inl e, w') \<Rightarrow> (Inr [audio_file], w')
            | (Inr chunk_files, w') \<Rightarrow> (Inr chunk_files, w'))"

text \<open>A 50 MB asset of 10 seconds, used in the examples below.\<close>

definition demo_codec :: codec where
  "demo_codec = \<lparr>from_file = (\<lambda>p. Some 10000), export = (\<lambda>p s e. Some 1000),
     remove_ok = (\<lambda>p. True), splitext_root = (\<lambda>p. take (length p - 4) p)\<rparr>"

definition demo_world :: world where
  "demo_world = \<lparr>files = [''ep.mp3'' \<mapsto> 52428800], exported = []\<rparr>"




section \<open>Transcription loop and timeline stitching\<close>

text \<open>
  The double-precision operations of the pipeline are a parameter: a model of the
  machine's addition, multiplication and division. Properties proved for every such
  model hold for the machine's; \<open>exact_fp\<close> is exact arithmetic, which the machine's
  agrees with wherever the operands and the result are doubles.
\<close>

record fp =
  fadd :: "real \<Rightarrow> real \<Rightarrow> real"
  fmul :: "real \<Rightarrow> real \<Rightarrow> real"
  fdiv :: "real \<Rightarrow> real \<Rightarrow> real"

definition exact_fp :: fp where
  "exact_fp = \<lparr>fadd = (\<lambda>a b. a + b), fmul = (\<lambda>a b. a * b), fdiv = (\<lambda>a b. a / b)\<rparr>"

record segment =
  seg_start :: real
  seg_end :: real
  seg_text :: string

record chunk_transcript =
  ct_text :: string
  ct_segments :: "segment list option"

datatype status_write = SetStatus string | SetProgress real | SetError py_error

record env =
  arith :: fp
  lib :: codec
  client_configured :: bool
  backend :: "path \<Rightarrow> chunk_transcript option"
  librosa_duration :: "path \<Rightarrow> real option"
  write_ok :: "path \<Rightarrow> bool"
  download :: "string \<Rightarrow> int option"

definition adjust :: "fp \<Rightarrow> real \<Rightarrow> segment \<Rightarrow> segment" where
  "adjust a time_offset segment =
     \<lparr>seg_start = fadd a (seg_start segment) time_offset,
      seg_end = fadd a (seg_end segment) time_offset,
      seg_text = seg_text segment\<rparr>"

fun transcribe_chunks ::
  "env \<Rightarrow> real \<Rightarrow> nat \<Rightarrow> nat \<Rightarrow> path list \<Rightarrow> segment list \<Rightarrow> string \<Rightarrow> status_write list \<Rightarrow> world
     \<Rightarrow> (py_error + segment list \<times> string) \<times> status_write list \<times> world" where
  "transcribe_chunks env audio_duration n i [] all_segments full_text ws w =
     (Inr (all_segments, full_text), ws, w)"
| "transcribe_chunks env audio_duration n i (chunk_file # rest) all_segments full_text ws w =
     (let progress = fadd (arith env) 10 (fmul (arith env) (fdiv (arith env) (real i) (real n)) 60);
          ws' = ws @ [SetProgress progress,
                      SetStatus (''transcribing chunk '' @ str_nat (i + 1) @ ''/'' @ str_nat n)]
      in case files w chunk_file of
           None \<Rightarrow> (Inl FileNotFoundError, ws', w)
         | Some size_bytes \<Rightarrow>
            (case backend env chunk_file of
               None \<Rightarrow> (Inl BackendError, ws', w)
             | Some transcript \<Rightarrow>
                 let full_text' = full_text @ ct_text transcript @ '' '';
                     all_segments' =
                       (case ct_segments transcript of
                          None \<Rightarrow> all_segments
                        | Some segs \<Rightarrow>
                            if segs = [] then all_segments
                            else
                              let chunk_duration = fdiv (arith env) audio_duration (real n);
                                  time_offset = fmul (arith env) (real i) chunk_duration
                              in all_segments @ map (adjust (arith env) time_offset) segs)
                 in if remove_ok (lib env) chunk_file
                    then transcribe_chunks env audio_duration n (i + 1) rest all_segments' full_text' ws'
                           (w\<lparr>files := (files w)(chunk_file := None)\<rparr>)
                    else (Inl RemoveError, ws', w)))"

text \<open>The segments the backend returns for one chunk file (none when it returns no list).\<close>

definition chunk_segments :: "env \<Rightarrow> path \<Rightarrow> segment list" where
  "chunk_segments env chunk_file =
     (case backend env chunk_file of
        None \<Rightarrow> []
      | Some transcript \<Rightarrow> (case ct_segments transcript of None \<Rightarrow> [] | Some segs \<Rightarrow> segs))"


text \<open>Three chunks whose backend segments are \<open>[0,5)\<close>, \<open>[0,5)\<close> and \<open>[0,4)\<close>.\<close>

definition three_backend :: "path \<Rightarrow> chunk_transcript option" where
  "three_backend p =
     (if p = ''c1'' then Some \<lparr>ct_text = ''one'', ct_segments = Some [\<lparr>seg_start = 0, seg_end = 5, seg_text = ''one''\<rparr>]\<rparr>
      else if p = ''c2'' then Some \<lparr>ct_text = ''two'', ct_segments = Some [\<lparr>seg_start = 0, seg_end = 5, seg_text = ''two''\<rparr>]\<rparr>
      else if p = ''c3'' then Some \<lparr>ct_text = ''three'', ct_segments = Some [\<lparr>seg_start = 0, seg_end = 4, seg_text = ''three''\<rparr>]\<rparr>
      else None)"

definition three_env :: env where
  "three_env = \<lparr>arith = exact_fp, lib = demo_codec, client_configured = True,
     backend = three_backend, librosa_duration = (\<lambda>p. Some 5), write_ok = (\<lambda>p. True),
     download = (\<lambda>u. Some 52428800)\<rparr>"

definition three_world :: world where
  "three_world = \<lparr>files = [''c1'' \<mapsto> 100, ''c2'' \<mapsto> 100, ''c3'' \<mapsto> 100], exported = []\<rparr>"



section \<open>Output formatting\<close>

text \<open>
  Python's \<open>//\<close> and \<open>%\<close> on doubles are exact for the operands that occur here
  (non-negative time stamps far below \<open>2^53\<close>), so they are modelled exactly; the one
  rounding operation of \<open>format_timestamp\<close>, the multiplication by 1000, is done by the
  arithmetic parameter.
\<close>

definition py_floordiv :: "real \<Rightarrow> real \<Rightarrow> real" where
  "py_floordiv x m = of_int \<lfloor>x / m\<rfloor>"

definition py_mod :: "real \<Rightarrow> real \<Rightarrow> real" where
  "py_mod x m = x - m * of_int \<lfloor>x / m\<rfloor>"

text \<open>The format specification \<open>0Nd\<close>: sign, then zeros up to the width, then the digits.\<close>

definition format_d :: "nat \<Rightarrow> int \<Rightarrow> string" where
  "format_d width n =
     (let sign = (if n < 0 then ''-'' else '''');
          digits = str_nat (nat \<bar>n\<bar>)
      in sign @ replicate (width - (length sign + length digits)) CHR ''0'' @ digits)"

definition format_timestamp :: "fp \<Rightarrow> real \<Rightarrow> string" where
  "format_timestamp a seconds =
     (let hours = py_int (py_floordiv seconds 3600);
          minutes = py_int (py_floordiv (py_mod seconds 3600) 60);
          secs = py_int (py_mod seconds 60);
          millisecs = py_int (fmul a (py_mod seconds 1) 1000)
      in format_d 2 hours @ '':'' @ format_d 2 minutes @ '':'' @ format_d 2 secs @ '','' @
         format_d 3 millisecs)"

text \<open>
  What the proofs below need of the multiplication, each true of a double multiplication
  rounded to nearest: a product between 1 and \<open>2^53\<close> is computed with a relative error
  of at most \<open>2^-53\<close>; a product between 0 and 1 is computed as a number between 0 and
  1 (rounding is monotone, and 0 and 1 are doubles); and zero times a number is zero.
\<close>

definition fp_accurate :: "fp \<Rightarrow> bool" where
  "fp_accurate a \<longleftrightarrow>
     (\<forall>x y. 1 \<le> x * y \<and> x * y \<le> 2 ^ 53 \<longrightarrow> \<bar>fmul a x y - x * y\<bar> \<le> x * y / 2 ^ 53) \<and>
     (\<forall>x y. 0 \<le> x * y \<and> x * y \<le> 1 \<longrightarrow> 0 \<le> fmul a x y \<and> fmul a x y \<le> 1) \<and>
     (\<forall>y. fmul a 0 y = 0)"

text \<open>
  A string is the list of its code points, for code points below 256. \<open>is_space\<close> holds
  of the characters that \<open>str.strip()\<close> removes in that range.
\<close>

definition is_space :: "char \<Rightarrow> bool" where
  "is_space c \<longleftrightarrow> (of_char c :: nat) \<in> {9, 10, 11, 12, 13, 28, 29, 30, 31, 32, 133, 160}"

definition strip :: "string \<Rightarrow> string" where
  "strip s = rev (dropWhile is_space (rev (dropWhile is_space s)))"

fun srt_records :: "fp \<Rightarrow> nat \<Rightarrow> segment list \<Rightarrow> string" where
  "srt_records a i [] = []"
| "srt_records a i (segment # rest) =
     (let start_time_srt = format_timestamp a (seg_start segment);
          end_time_srt = format_timestamp a (seg_end segment)
      in (str_nat i @ ''\<newline>'') @
         (start_time_srt @ '' --> '' @ end_time_srt @ ''\<newline>'') @
         (strip (seg_text segment) @ ''\<newline>\<newline>'') @
         srt_records a (i + 1) rest)"

definition write_srt :: "fp \<Rightarrow> segment list \<Rightarrow> string \<Rightarrow> string" where
  "write_srt a segments text_stripped =
     (if segments \<noteq> [] then srt_records a 1 segments
      else ''1\<newline>'' @ ''00:00:00,000 --> 00:00:01,000\<newline>'' @ text_stripped)"

text \<open>Two segments, the second with surrounding blanks in its text.\<close>

definition two_segments :: "segment list" where
  "two_segments = [\<lparr>seg_start = 0, seg_end = 5 / 2, seg_text = ''hei''\<rparr>,
                   \<lparr>seg_start = 5 / 2, seg_end = 3725, seg_text = '' og ha det ''\<rparr>]"

section \<open>The transcription task\<close>

text \<open>
  The status store is modelled by the sequence of writes a task makes to its
  \<open>status\<close>, \<open>progress\<close> and \<open>error\<close> fields; the fields \<open>debug\<close>, \<open>eta\<close>,
  \<open>audio_duration\<close> and \<open>language\<close>, which no property below reads, are left out.
  A run returns its writes, the file system, the two output files and whether the result
  entry was stored.
\<close>

definition get_audio_duration :: "env \<Rightarrow> world \<Rightarrow> path \<Rightarrow> py_error + real" where
  "get_audio_duration env w audio_file =
     (case librosa_duration env audio_file of
        Some duration \<Rightarrow> Inr duration
      | None \<Rightarrow>
          (case files w audio_file of
             None \<Rightarrow> Inl FileNotFoundError
           | Some size_bytes \<Rightarrow>
               let file_size_mb = fdiv (arith env) (of_int size_bytes) (1024 * 1024)
               in Inr (fmul (arith env) file_size_mb 60)))"

definition fail :: "py_error \<Rightarrow> status_write list \<Rightarrow> status_write list" where
  "fail e ws = ws @ [SetStatus ''error'', SetError e]"

definition transcribe_audio_openai ::
  "env \<Rightarrow> world \<Rightarrow> path \<Rightarrow> path \<Rightarrow> path
     \<Rightarrow> status_write list \<times> world \<times> (path \<rightharpoonup> string) \<times> bool" where
  "transcribe_audio_openai env w audio_file output_txt output_srt =
     (if \<not> client_configured env then (fail ConfigError [], w, Map.empty, False)
      else
        let ws0 = [SetStatus ''splitting'', SetProgress 5] in
        case split_audio_if_needed (lib env) w audio_file 24 of
          (Inl e, w1) \<Rightarrow> (fail e ws0, w1, Map.empty, False)
        | (Inr audio_chunks, w1) \<Rightarrow>
           (case audio_chunks of
              [] \<Rightarrow> (fail IndexError ws0, w1, Map.empty, False)
            | first_chunk # others \<Rightarrow>
               (case get_audio_duration env w1 first_chunk of
                  Inl e \<Rightarrow> (fail e ws0, w1, Map.empty, False)
                | Inr duration \<Rightarrow>
                    let audio_duration =
                          (if length audio_chunks > 1
                           then fmul (arith env) duration (real (length audio_chunks))
                           else duration);
                        ws1 = ws0 @ [SetStatus ''transcribing'', SetProgress 10]
                    in case transcribe_chunks env audio_duration (length audio_chunks) 0
                              audio_chunks [] [] ws1 w1 of
                         (Inl e, ws2, w2) \<Rightarrow> (fail e ws2, w2, Map.empty, False)
                       | (Inr (all_segments, full_text), ws2, w2) \<Rightarrow>
                           let text_stripped = strip full_text;
                               ws3 = ws2 @ [SetStatus ''processing'', SetProgress 50]
                           in if \<not> write_ok env output_txt
                              then (fail WriteError ws3, w2, Map.empty, False)
                              else
                                let outs1 = [output_txt \<mapsto> text_stripped];
                                    ws4 = ws3 @ [SetProgress 75]
                                in if \<not> write_ok env output_srt
                                   then (fail WriteError ws4, w2, outs1, False)
                                   else
                                     let outs2 = outs1(output_srt \<mapsto>
                                                   write_srt (arith env) all_segments text_stripped);
                                         ws5 = ws4 @ [SetStatus ''completed'', SetProgress 100]
                                     in case files w2 audio_file of
                                          None \<Rightarrow> (ws5, w2, outs2, True)
                                        | Some size_bytes \<Rightarrow>
                                            if remove_ok (lib env) audio_file
                                            then (ws5, w2\<lparr>files := (files w2)(audio_file := None)\<rparr>,
                                                  outs2, True)
                                            else (fail RemoveError ws5, w2, outs2, True))))"

definition transcribe_thread ::
  "env \<Rightarrow> world \<Rightarrow> string \<Rightarrow> path \<Rightarrow> path \<Rightarrow> path
     \<Rightarrow> status_write list \<times> world \<times> (path \<rightharpoonup> string) \<times> bool" where
  "transcribe_thread env w audio_url audio_filename txt_filename srt_filename =
     (let ws0 = [SetStatus ''downloading''] in
      case download env audio_url of
        None \<Rightarrow> (fail DownloadError ws0, w, Map.empty, False)
      | Some size_bytes \<Rightarrow>
          (case transcribe_audio_openai env (w\<lparr>files := (files w)(audio_filename \<mapsto> size_bytes)\<rparr>)
                  audio_filename txt_filename srt_filename of
             (ws, r) \<Rightarrow> (ws0 @ ws, r)))"

text \<open>All writes of one task: the initial entry that \<open>start_transcription\<close> stores
  (\<open>starting\<close>, progress 0), then those of the background thread.\<close>

definition task_writes ::
  "env \<Rightarrow> world \<Rightarrow> string \<Rightarrow> path \<Rightarrow> path \<Rightarrow> path \<Rightarrow> status_write list" where
  "task_writes env w audio_url audio_filename txt_filename srt_filename =
     [SetStatus ''starting'', SetProgress 0] @
     fst (transcribe_thread env w audio_url audio_filename txt_filename srt_filename)"

text \<open>The values written to \<open>progress\<close>, each with the status stored at that moment.\<close>

fun progress_trace :: "string \<Rightarrow> status_write list \<Rightarrow> (string \<times> real) list" where
  "progress_trace status [] = []"
| "progress_trace status (SetStatus s # ws) = progress_trace s ws"
| "progress_trace status (SetProgress p # ws) = (status, p) # progress_trace status ws"
| "progress_trace status (SetError e # ws) = progress_trace status ws"

text \<open>An 80 MB episode of 10 seconds: four chunks.\<close>

definition four_env :: env where
  "four_env = \<lparr>arith = exact_fp, lib = demo_codec, client_configured = True,
     backend = (\<lambda>p. Some \<lparr>ct_text = ''hei'',
                  ct_segments = Some [\<lparr>seg_start = 0, seg_end = 2, seg_text = ''hei''\<rparr>]\<rparr>),
     librosa_duration = (\<lambda>p. Some (5 / 2)), write_ok = (\<lambda>p. True),
     download = (\<lambda>u. Some 83886080)\<rparr>"

definition empty_world :: world where
  "empty_world = \<lparr>files = Map.empty, exported = []\<rparr>"

section \<open>Feed parsing and job submission\<close>

text \<open>
  A feed is the list of entries that \<open>feedparser.parse\<close> returns. An attribute that an
  entry or an enclosure does not have is \<open>None\<close>; reading it with \<open>entry.title\<close> or
  \<open>enclosure.type\<close> raises \<open>AttributeError\<close>, reading it with \<open>entry.get\<close> gives the
  default. \<open>str_of\<close> is Python's \<open>str(e)\<close>.
\<close>

record enclosure =
  enc_type :: "string option"
  href :: "string option"

record entry =
  title :: "string option"
  enclosures :: "enclosure list option"
  published :: "string option"
  description :: "string option"

record episode =
  ep_index :: nat
  ep_title :: string
  ep_published :: string
  audio_url :: string
  ep_description :: string

definition startswith :: "string \<Rightarrow> string \<Rightarrow> bool" where
  "startswith s prefix \<longleftrightarrow> take (length prefix) s = prefix"

fun find_audio :: "enclosure list \<Rightarrow> py_error + string option" where
  "find_audio [] = Inr None"
| "find_audio (enclosure # rest) =
     (case enc_type enclosure of
        None \<Rightarrow> Inl AttributeError
      | Some t \<Rightarrow>
          if startswith t ''audio/''
          then (case href enclosure of None \<Rightarrow> Inl AttributeError | Some h \<Rightarrow> Inr (Some h))
          else find_audio rest)"

fun collect_episodes :: "nat \<Rightarrow> entry list \<Rightarrow> episode list \<Rightarrow> py_error + episode list" where
  "collect_episodes i [] episodes = Inr episodes"
| "collect_episodes i (entry # rest) episodes =
     (case (case enclosures entry of None \<Rightarrow> Inr None | Some encs \<Rightarrow> find_audio encs) of
        Inl e \<Rightarrow> Inl e
      | Inr None \<Rightarrow> collect_episodes (i + 1) rest episodes
      | Inr (Some url) \<Rightarrow>
          if url = [] then collect_episodes (i + 1) rest episodes
          else
            (case title entry of
               None \<Rightarrow> Inl AttributeError
             | Some t \<Rightarrow>
                 let d = (case description entry of None \<Rightarrow> [] | Some x \<Rightarrow> x)
                 in collect_episodes (i + 1) rest
                      (episodes @
                        [\<lparr>ep_index = i, ep_title = t,
                          ep_published = (case published entry of None \<Rightarrow> ''Unknown date'' | Some p \<Rightarrow> p),
                          audio_url = url,
                          ep_description = (if length d > 200 then take 200 d @ ''...'' else d)\<rparr>])))"

definition get_episodes_from_rss ::
  "(py_error \<Rightarrow> string) \<Rightarrow> entry list \<Rightarrow> episode list option \<times> string option" where
  "get_episodes_from_rss str_of entries =
     (if entries = [] then (None, Some ''No episodes found in RSS feed'')
      else
        (case collect_episodes 0 entries [] of
           Inl e \<Rightarrow> (None, Some (''Error parsing RSS feed: '' @ str_of e))
         | Inr episodes \<Rightarrow> (Some episodes, None)))"

text \<open>Python's list indexing: a negative index counts from the end.\<close>

definition py_index :: "'a list \<Rightarrow> int \<Rightarrow> 'a option" where
  "py_index xs i =
     (let n = int (length xs); j = (if i < 0 then n + i else i)
      in if 0 \<le> j \<and> j < n then Some (xs ! nat j) else None)"

datatype response = TaskStarted string | BadRequest string | ServerError py_error

record task_entry =
  status :: string
  progress :: real
  episode_title :: string

text \<open>
  The request handler up to the point where it stores the task's first entry; the
  background thread it then starts is \<open>transcribe_thread\<close>. An exception that leaves the
  handler is the response \<open>ServerError\<close>.
\<close>

definition start_transcription ::
  "(py_error \<Rightarrow> string) \<Rightarrow> entry list \<Rightarrow> int \<Rightarrow> string \<Rightarrow> (string \<rightharpoonup> task_entry)
     \<Rightarrow> response \<times> (string \<rightharpoonup> task_entry)" where
  "start_transcription str_of feed episode_index task_id transcription_status =
     (case get_episodes_from_rss str_of feed of
        (episodes, error) \<Rightarrow>
          if (case error of None \<Rightarrow> False | Some msg \<Rightarrow> msg \<noteq> [])
          then (BadRequest ''Invalid episode selection'', transcription_status)
          else
            (case episodes of
               None \<Rightarrow> (ServerError TypeError, transcription_status)
             | Some eps \<Rightarrow>
                 if episode_index \<ge> int (length eps)
                 then (BadRequest ''Invalid episode selection'', transcription_status)
                 else
                   (case py_index eps episode_index of
                      None \<Rightarrow> (ServerError IndexError, transcription_status)
                    | Some episode \<Rightarrow>
                        (TaskStarted task_id,
                         transcription_status(task_id \<mapsto>
                           \<lparr>status = ''starting'', progress = 0,
                            episode_title = ep_title episode\<rparr>)))))"

text \<open>Whether an entry carries an enclosure whose type starts with \<open>audio/\<close>.\<close>

definition has_audio_enclosure :: "entry \<Rightarrow> bool" where
  "has_audio_enclosure e \<longleftrightarrow>
     (case enclosures e of
        None \<Rightarrow> False
      | Some encs \<Rightarrow>
          list_ex (\<lambda>enc. case enc_type enc of None \<Rightarrow> False | Some t \<Rightarrow> startswith t ''audio/'') encs)"

text \<open>A feed of two entries, one without enclosures and one with an image only.\<close>

definition text_feed :: "entry list" where
  "text_feed =
     [\<lparr>title = Some ''one'', enclosures = None, published = None, description = None\<rparr>,
      \<lparr>title = Some ''two'',
        enclosures = Some [\<lparr>enc_type = Some ''image/png'', href = Some ''http://x/y.png''\<rparr>],
        published = None, description = None\<rparr>]"

section \<open>Properties of the chunk splitter\<close>


lemma export_chunks_cases:
  "export_chunks c b tot cd is acc w = (r, w') \<Longrightarrow>
     dom (files w) \<subseteq> dom (files w') \<and> (r = Inl ExportError \<or> r = Inr (acc @ map (chunk_name b) is))"
proof (induction "is" arbitrary: acc w)
  case Nil
  then show ?case by auto
next
  case (Cons i rest)
  show ?case
  proof (cases "export c (chunk_name b i) (int i * cd) (min ((int i + 1) * cd) tot)")
    case None
    with Cons.prems show ?thesis by (simp add: Let_def)
  next
    case (Some sz)
    let ?w = "w\<lparr>files := (files w)(chunk_name b i \<mapsto> sz),
                  exported := exported w @ [(chunk_name b i, int i * cd, min ((int i + 1) * cd) tot)]\<rparr>"
    from Cons.prems Some have "export_chunks c b tot cd rest (acc @ [chunk_name b i]) ?w = (r, w')"
      by (simp add: Let_def)
    from Cons.IH[OF this]
    have a: "dom (files ?w) \<subseteq> dom (files w')"
      and b: "r = Inl ExportError \<or> r = Inr ((acc @ [chunk_name b i]) @ map (chunk_name b) rest)"
      by blast+
    have c: "dom (files w) \<subseteq> dom (files ?w)" by (simp add: subset_insertI)
    from c a have "dom (files w) \<subseteq> dom (files w')" by (rule subset_trans)
    with b show ?thesis by simp
  qed
qed


lemma split_body_fail_keeps:
  assumes "split_body c w f n = (Inl e, w')" and "files w f \<noteq> None"
  shows "files w' f \<noteq> None"
proof (cases "from_file c f")
  case None
  with assms show ?thesis by (simp add: split_body_def)
next
  case (Some tot)
  show ?thesis
  proof (cases "n = 0")
    case True
    with assms Some show ?thesis by (simp add: split_body_def)
  next
    case False
    obtain r w1 where ex: "export_chunks c (splitext_root c f) tot (tot div n) [0..<nat n] [] w = (r, w1)"
      by (cases "export_chunks c (splitext_root c f) tot (tot div n) [0..<nat n] [] w") auto
    from export_chunks_cases[OF ex] have sub: "dom (files w) \<subseteq> dom (files w1)" by simp
    from assms(1) Some False ex have "w' = w1"
      by (cases r) (auto simp: split_body_def Let_def split: if_splits)
    with sub assms(2) show ?thesis by auto
  qed
qed

lemma py_int_pos: "0 < m \<Longrightarrow> m < x \<Longrightarrow> py_int (x / m + 1) = \<lfloor>x / m\<rfloor> + 1 \<and> 2 \<le> py_int (x / m + 1)"
proof -
  assume m: "0 < m" and x: "m < x"
  then have "1 < x / m" by simp
  then have "1 \<le> \<lfloor>x / m\<rfloor>" by linarith
  moreover have "py_int (x / m + 1) = \<lfloor>x / m\<rfloor> + 1"
    using \<open>1 < x / m\<close> by (simp add: py_int_def)
  ultimately show ?thesis by simp
qed


text \<open>
  C1 (failing input). A 50 MB asset of 10000 ms under a 24 MB ceiling is cut into three
  slices of 3333 ms; the last slice ends at 9999 ms, not at 10000 ms, so the final
  millisecond of the asset is in no chunk.
\<close>

theorem split_drops_tail:
  "exported (snd (split_audio_if_needed demo_codec demo_world ''ep.mp3'' 24)) =
     [(''ep_chunk_1.mp3'', 0, 3333), (''ep_chunk_2.mp3'', 3333, 6666),
      (''ep_chunk_3.mp3'', 6666, 9999)]"
  by code_simp






lemma split_body_ok_shape:
  assumes "split_body c w f n = (Inr cs, w')"
  shows "cs = map (chunk_name (splitext_root c f)) [0..<nat n]"
proof -
  from assms obtain tot where dec: "from_file c f = Some tot"
    by (cases "from_file c f") (auto simp: split_body_def)
  from assms dec have n0: "n \<noteq> 0" by (auto simp: split_body_def split: if_splits)
  obtain r w1 where ex: "export_chunks c (splitext_root c f) tot (tot div n) [0..<nat n] [] w = (r, w1)"
    by (cases "export_chunks c (splitext_root c f) tot (tot div n) [0..<nat n] [] w") auto
  from assms dec n0 ex have "r = Inr cs"
    by (cases r) (auto simp: split_body_def Let_def split: if_splits)
  with export_chunks_cases[OF ex] show ?thesis by simp
qed

lemma split_total:
  assumes f: "files w f = Some sz" and m: "0 < m"
  shows "\<exists>cs w'. split_audio_if_needed c w f m = (Inr cs, w') \<and> cs \<noteq> [] \<and>
           (\<forall>e w1. of_int sz / (1024 * 1024) > m \<and> split_body c w f (py_int (of_int sz / (1024 * 1024) / m + 1)) = (Inl e, w1)
               \<longrightarrow> cs = [f] \<and> w' = w1 \<and> files w' f \<noteq> None)"
proof (cases "of_int sz / (1024 * 1024) \<le> m")
  case True
  with f show ?thesis by (simp add: split_audio_if_needed_def)
next
  case False
  let ?n = "py_int (of_int sz / (1024 * 1024) / m + 1)"
  from False have big: "m < of_int sz / (1024 * 1024)" by simp
  from py_int_pos[OF m big] have two: "2 \<le> ?n" by blast
  obtain r w1 where sb: "split_body c w f ?n = (r, w1)" by (cases "split_body c w f ?n") auto
  show ?thesis
  proof (cases r)
    case (Inl e)
    from split_body_fail_keeps[OF sb[unfolded Inl]] f have "files w1 f \<noteq> None" by simp
    with f m False sb Inl show ?thesis by (simp add: split_audio_if_needed_def)
  next
    case (Inr cs)
    from split_body_ok_shape[OF sb[unfolded Inr]] two have "cs \<noteq> []" by simp
    with f m False sb Inr show ?thesis by (simp add: split_audio_if_needed_def)
  qed
qed









text \<open>
  C10. For every positive ceiling (the caller passes 24), the splitter either raises
  because the asset file is missing, or returns a non-empty list: the within-limit path,
  the successful split and the fallback all return at least one chunk, so the caller's
  \<open>audio_chunks[0]\<close> never fails.
\<close>

theorem split_returns_nonempty:
  assumes "0 < m"
  shows "(files w f = None \<and> split_audio_if_needed c w f m = (Inl FileNotFoundError, w)) \<or>
         (\<exists>cs w'. split_audio_if_needed c w f m = (Inr cs, w') \<and> cs \<noteq> [])"
proof (cases "files w f")
  case None
  then show ?thesis by (simp add: split_audio_if_needed_def)
next
  case (Some sz)
  from split_total[OF Some assms] show ?thesis by blast
qed

text \<open>C10 at the 50 MB asset with the caller's ceiling.\<close>

theorem split_returns_nonempty_witness:
  "\<exists>cs w'. split_audio_if_needed demo_codec demo_world ''ep.mp3'' 24 = (Inr cs, w') \<and> cs \<noteq> []"
  using split_returns_nonempty[of 24 demo_world "''ep.mp3''" demo_codec]
  by (simp add: demo_world_def)

section \<open>Properties of the transcription loop\<close>


lemma transcribe_chunks_segments:
  "transcribe_chunks env ad n i chunks acc ft ws w = (Inr (segs, ft'), ws', w') \<Longrightarrow>
   segs = acc @ concat (map (\<lambda>(j, cf).
            map (adjust (arith env) (fmul (arith env) (real j) (fdiv (arith env) ad (real n))))
              (chunk_segments env cf)) (zip [i..<i + length chunks] chunks))"
proof (induction chunks arbitrary: i acc ft ws w)
  case Nil
  then show ?case by simp
next
  case (Cons cf rest)
  from Cons.prems obtain sz where sz: "files w cf = Some sz"
    by (cases "files w cf") (auto simp: Let_def)
  from Cons.prems sz obtain ct where ct: "backend env cf = Some ct"
    by (cases "backend env cf") (auto simp: Let_def)
  from Cons.prems sz ct have rm: "remove_ok (lib env) cf"
    by (auto simp: Let_def split: if_splits)
  let ?off = "fmul (arith env) (real i) (fdiv (arith env) ad (real n))"
  let ?acc = "acc @ map (adjust (arith env) ?off) (chunk_segments env cf)"
  have "\<exists>ws1. transcribe_chunks env ad n (i + 1) rest ?acc (ft @ ct_text ct @ '' '') ws1
            (w\<lparr>files := (files w)(cf := None)\<rparr>) = (Inr (segs, ft'), ws', w')"
    using Cons.prems sz ct rm
    by (cases "ct_segments ct") (auto simp: Let_def chunk_segments_def split: if_splits)
  then obtain ws1 where
    rec: "transcribe_chunks env ad n (i + 1) rest ?acc (ft @ ct_text ct @ '' '') ws1
            (w\<lparr>files := (files w)(cf := None)\<rparr>) = (Inr (segs, ft'), ws', w')"
    by blast
  have "[i..<i + Suc (length rest)] = i # [Suc i..<i + Suc (length rest)]"
    by (rule upt_conv_Cons) simp
  then have up: "[i..<i + length (cf # rest)] = i # [i + 1..<(i + 1) + length rest]"
    by (simp del: upt_Suc)
  from Cons.IH[OF rec] show ?case unfolding up by simp
qed


lemma upt3: "[0..<3] = [0, 1, 2]" by (simp add: upt_conv_Cons)
lemma upt2: "[0..<2] = [0, 1]" by (simp add: upt_conv_Cons)

lemma three_run:
  "\<exists>ws' w'. transcribe_chunks three_env 15 (length [''c1'', ''c2'', ''c3'']) 0 [''c1'', ''c2'', ''c3''] [] [] [] three_world =
     (Inr ([\<lparr>seg_start = 0, seg_end = 5, seg_text = ''one''\<rparr>,
            \<lparr>seg_start = 5, seg_end = 10, seg_text = ''two''\<rparr>,
            \<lparr>seg_start = 10, seg_end = 14, seg_text = ''three''\<rparr>], ''one two three ''), ws', w')"
  by (simp add: three_env_def three_world_def three_backend_def exact_fp_def demo_codec_def
        adjust_def Let_def)

text \<open>
  C4. Whenever the transcription loop completes for a list of N chunks, the merged
  segments are, in chunk order, the segments the backend returned for chunk i with start
  and end each increased by the offset \<open>i * (audio_duration / N)\<close> (computed in the
  machine's arithmetic) and the text unchanged; for three chunks the offsets are
  \<open>0 * d\<close>, \<open>1 * d\<close> and \<open>2 * d\<close> with \<open>d = audio_duration / 3\<close>.
\<close>

theorem stitch_offsets:
  assumes "transcribe_chunks env audio_duration (length chunks) 0 chunks [] [] ws w =
             (Inr (all_segments, full_text), ws', w')"
  shows "all_segments =
           concat (map (\<lambda>(i, chunk_file).
              map (\<lambda>segment.
                    \<lparr>seg_start = fadd (arith env) (seg_start segment)
                       (fmul (arith env) (real i) (fdiv (arith env) audio_duration (real (length chunks)))),
                     seg_end = fadd (arith env) (seg_end segment)
                       (fmul (arith env) (real i) (fdiv (arith env) audio_duration (real (length chunks)))),
                     seg_text = seg_text segment\<rparr>)
                (chunk_segments env chunk_file))
            (zip [0..<length chunks] chunks))
         \<and> (\<forall>a b c. chunks = [a, b, c] \<longrightarrow>
               all_segments =
                 map (adjust (arith env) (fmul (arith env) 0 (fdiv (arith env) audio_duration 3))) (chunk_segments env a) @
                 map (adjust (arith env) (fmul (arith env) 1 (fdiv (arith env) audio_duration 3))) (chunk_segments env b) @
                 map (adjust (arith env) (fmul (arith env) 2 (fdiv (arith env) audio_duration 3))) (chunk_segments env c))"
proof -
  from transcribe_chunks_segments[OF assms]
  have eq: "all_segments = concat (map (\<lambda>(j, cf).
            map (adjust (arith env) (fmul (arith env) (real j) (fdiv (arith env) audio_duration (real (length chunks)))))
              (chunk_segments env cf)) (zip [0..<length chunks] chunks))"
    by simp
  have adj: "adjust = (\<lambda>a off segment. \<lparr>seg_start = fadd a (seg_start segment) off,
                     seg_end = fadd a (seg_end segment) off, seg_text = seg_text segment\<rparr>)"
    by (intro ext) (simp add: adjust_def)
  show ?thesis
  proof (intro conjI allI impI)
    show "all_segments =
           concat (map (\<lambda>(i, chunk_file).
              map (\<lambda>segment.
                    \<lparr>seg_start = fadd (arith env) (seg_start segment)
                       (fmul (arith env) (real i) (fdiv (arith env) audio_duration (real (length chunks)))),
                     seg_end = fadd (arith env) (seg_end segment)
                       (fmul (arith env) (real i) (fdiv (arith env) audio_duration (real (length chunks)))),
                     seg_text = seg_text segment\<rparr>)
                (chunk_segments env chunk_file))
            (zip [0..<length chunks] chunks))"
      using eq unfolding adj .
  next
    fix a b c assume "chunks = [a, b, c]"
    with eq show "all_segments =
                 map (adjust (arith env) (fmul (arith env) 0 (fdiv (arith env) audio_duration 3))) (chunk_segments env a) @
                 map (adjust (arith env) (fmul (arith env) 1 (fdiv (arith env) audio_duration 3))) (chunk_segments env b) @
                 map (adjust (arith env) (fmul (arith env) 2 (fdiv (arith env) audio_duration 3))) (chunk_segments env c)"
      by (simp add: upt3)
  qed
qed

text \<open>
  C4 at three chunks with local segments \<open>[0,5)\<close>, \<open>[0,5)\<close>, \<open>[0,4)\<close> and a duration of 15
  seconds: the merged segments are \<open>[0,5)\<close>, \<open>[5,10)\<close>, \<open>[10,14)\<close>.
\<close>

theorem stitch_offsets_witness:
  "\<exists>ws' w'. transcribe_chunks three_env 15 (length [''c1'', ''c2'', ''c3'']) 0 [''c1'', ''c2'', ''c3''] [] [] [] three_world =
     (Inr ([\<lparr>seg_start = 0, seg_end = 5, seg_text = ''one''\<rparr>,
            \<lparr>seg_start = 5, seg_end = 10, seg_text = ''two''\<rparr>,
            \<lparr>seg_start = 10, seg_end = 14, seg_text = ''three''\<rparr>], ''one two three ''), ws', w')
   \<and> [\<lparr>seg_start = 0, seg_end = 5, seg_text = ''one''\<rparr>,
      \<lparr>seg_start = 5, seg_end = 10, seg_text = ''two''\<rparr>,
      \<lparr>seg_start = 10, seg_end = 14, seg_text = ''three''\<rparr>] =
     map (adjust (arith three_env) (fmul (arith three_env) 0 (fdiv (arith three_env) 15 3))) (chunk_segments three_env ''c1'') @
     map (adjust (arith three_env) (fmul (arith three_env) 1 (fdiv (arith three_env) 15 3))) (chunk_segments three_env ''c2'') @
     map (adjust (arith three_env) (fmul (arith three_env) 2 (fdiv (arith three_env) 15 3))) (chunk_segments three_env ''c3'')"
proof -
  from three_run obtain ws' w' where
    run: "transcribe_chunks three_env 15 (length [''c1'', ''c2'', ''c3'']) 0 [''c1'', ''c2'', ''c3''] [] [] [] three_world =
     (Inr ([\<lparr>seg_start = 0, seg_end = 5, seg_text = ''one''\<rparr>,
            \<lparr>seg_start = 5, seg_end = 10, seg_text = ''two''\<rparr>,
            \<lparr>seg_start = 10, seg_end = 14, seg_text = ''three''\<rparr>], ''one two three ''), ws', w')"
    by blast
  from stitch_offsets[OF run] run show ?thesis by blast
qed









section \<open>Properties of the output formatter\<close>


lemma str_nat_nonempty: "str_nat n \<noteq> []"
  by (subst str_nat.simps) simp

lemma srt_records_concat:
  "srt_records a i segments =
     concat (map (\<lambda>(k, segment).
        str_nat k @ ''\<newline>'' @ format_timestamp a (seg_start segment) @ '' --> '' @
        format_timestamp a (seg_end segment) @ ''\<newline>'' @ strip (seg_text segment) @ ''\<newline>\<newline>'')
      (zip [i..<i + length segments] segments))"
proof (induction segments arbitrary: i)
  case Nil
  then show ?case by simp
next
  case (Cons s rest)
  have "[i..<i + Suc (length rest)] = i # [Suc i..<i + Suc (length rest)]"
    by (rule upt_conv_Cons) simp
  then have up: "[i..<i + length (s # rest)] = i # [i + 1..<(i + 1) + length rest]"
    by (simp del: upt_Suc)
  show ?case unfolding up by (simp add: Cons.IH Let_def)
qed

lemma strip_ends:
  "strip s = [] \<or> (\<not> is_space (hd (strip s)) \<and> \<not> is_space (last (strip s)))"
proof (cases "strip s = []")
  case True
  then show ?thesis by simp
next
  case False
  let ?t = "dropWhile is_space (rev (dropWhile is_space s))"
  from False have t: "?t \<noteq> []" by (simp add: strip_def)
  then have h: "\<not> is_space (hd ?t)" by (rule hd_dropWhile)
  have "last (strip s) = hd ?t" using t by (simp add: strip_def last_rev)
  with h have l: "\<not> is_space (last (strip s))" by simp
  have d: "dropWhile is_space s \<noteq> []"
  proof
    assume e: "dropWhile is_space s = []"
    have "?t = []" unfolding e by simp
    with t show False by simp
  qed
  then have hd: "\<not> is_space (hd (dropWhile is_space s))" by (rule hd_dropWhile)
  obtain x xs where xs: "dropWhile is_space s = x # xs" using d by (cases "dropWhile is_space s") auto
  with hd have nx: "\<not> is_space x" by simp
  have "?t = dropWhile is_space (rev xs @ [x])" using xs by simp
  also have "\<dots> = dropWhile is_space (rev xs) @ [x]" using nx
    by (induction "rev xs") (auto simp: dropWhile_append)
  finally have "strip s = x # rev (dropWhile is_space (rev xs))" by (simp add: strip_def)
  with nx l show ?thesis by simp
qed

text \<open>
  C8. With no segments the subtitle text is exactly one record: the index 1, the line
  \<open>00:00:00,000 --> 00:00:01,000\<close> and the full (stripped) transcript text; the subtitle
  text is never empty; with segments, the records are numbered from 1 in segment order,
  each made of the index line, the line \<open>start --> end\<close> of the two formatted time
  stamps, the stripped segment text and a blank line.
\<close>

theorem srt_layout:
  "write_srt a [] text_stripped =
      ''1'' @ ''\<newline>'' @ ''00:00:00,000 --> 00:00:01,000'' @ ''\<newline>'' @ text_stripped
   \<and> write_srt a segments text_stripped \<noteq> []
   \<and> (segments \<noteq> [] \<longrightarrow>
        write_srt a segments text_stripped =
          concat (map (\<lambda>(i, segment).
              str_nat i @ ''\<newline>'' @
              format_timestamp a (seg_start segment) @ '' --> '' @ format_timestamp a (seg_end segment) @ ''\<newline>'' @
              strip (seg_text segment) @ ''\<newline>'' @ ''\<newline>'')
            (zip [1..<1 + length segments] segments)))"
proof (intro conjI impI)
  show "write_srt a [] text_stripped =
      ''1'' @ ''\<newline>'' @ ''00:00:00,000 --> 00:00:01,000'' @ ''\<newline>'' @ text_stripped"
    by (simp add: write_srt_def)
next
  show "write_srt a segments text_stripped \<noteq> []"
  proof (cases segments)
    case Nil
    then show ?thesis by (simp add: write_srt_def)
  next
    case (Cons s rest)
    then show ?thesis by (simp add: write_srt_def Let_def str_nat_nonempty)
  qed
next
  assume "segments \<noteq> []"
  then show "write_srt a segments text_stripped =
          concat (map (\<lambda>(i, segment).
              str_nat i @ ''\<newline>'' @
              format_timestamp a (seg_start segment) @ '' --> '' @ format_timestamp a (seg_end segment) @ ''\<newline>'' @
              strip (seg_text segment) @ ''\<newline>'' @ ''\<newline>'')
            (zip [1..<1 + length segments] segments))"
    by (simp add: write_srt_def srt_records_concat)
qed

lemma two_srt: "write_srt exact_fp two_segments ''x'' =
     ''1\<newline>00:00:00,000 --> 00:00:02,500\<newline>hei\<newline>\<newline>2\<newline>00:00:02,500 --> 01:02:05,000\<newline>og ha det\<newline>\<newline>''"
  by code_simp


text \<open>
  C8 at two segments, the second with blanks around its text.
\<close>

theorem srt_layout_witness:
  "two_segments \<noteq> [] \<and>
   write_srt exact_fp two_segments ''x'' =
     ''1\<newline>00:00:00,000 --> 00:00:02,500\<newline>hei\<newline>\<newline>2\<newline>00:00:02,500 --> 01:02:05,000\<newline>og ha det\<newline>\<newline>''"
  using srt_layout[of exact_fp "''x''" two_segments] two_srt
  by (simp add: two_segments_def)

lemma digit_char_0: "digit_char 0 = CHR ''0''"
  by (simp add: digit_char_def)

lemma str_nat_1: "n < 10 \<Longrightarrow> str_nat n = [digit_char n]"
  by (subst str_nat.simps) simp

lemma str_nat_2: "10 \<le> n \<Longrightarrow> n < 100 \<Longrightarrow> str_nat n = [digit_char (n div 10), digit_char (n mod 10)]"
  by (subst str_nat.simps) (simp add: str_nat_1)

lemma str_nat_3: "100 \<le> n \<Longrightarrow> n < 1000 \<Longrightarrow>
    str_nat n = [digit_char (n div 100), digit_char (n div 10 mod 10), digit_char (n mod 10)]"
proof -
  assume a: "100 \<le> n" "n < 1000"
  then have "10 \<le> n div 10" "n div 10 < 100" by auto
  from str_nat_2[OF this] a show ?thesis
    by (subst str_nat.simps) (simp add: div_mult2_eq[symmetric])
qed

lemma format_d_2:
  assumes "0 \<le> k" "k < 100"
  shows "format_d 2 k = [digit_char (nat k div 10), digit_char (nat k mod 10)]"
proof (cases "nat k < 10")
  case True
  with assms show ?thesis by (simp add: format_d_def str_nat_1 digit_char_0)
next
  case False
  with assms have "10 \<le> nat k" "nat k < 100" by auto
  from str_nat_2[OF this] assms show ?thesis by (simp add: format_d_def)
qed

lemma format_d_3:
  assumes "0 \<le> k" "k < 1000"
  shows "format_d 3 k = [digit_char (nat k div 100), digit_char (nat k div 10 mod 10), digit_char (nat k mod 10)]"
proof -
  consider "nat k < 10" | "10 \<le> nat k" "nat k < 100" | "100 \<le> nat k" "nat k < 1000"
    using assms by linarith
  then show ?thesis
  proof cases
    case 1
    with assms show ?thesis by (simp add: format_d_def str_nat_1 digit_char_0 numeral_3_eq_3)
  next
    case 2
    from str_nat_2[OF 2] 2 assms show ?thesis by (simp add: format_d_def digit_char_0)
  next
    case 3
    from str_nat_3[OF 3] assms show ?thesis by (simp add: format_d_def)
  qed
qed

lemma py_int_of_int: "py_int (of_int k) = k"
  by (simp add: py_int_def)

lemma hours_field: "py_int (py_floordiv s 3600) = \<lfloor>s\<rfloor> div 3600"
proof -
  have "\<lfloor>s / real_of_int 3600\<rfloor> = \<lfloor>s\<rfloor> div 3600" by (rule floor_divide_real_eq_div) simp
  then show ?thesis by (simp add: py_floordiv_def py_int_of_int)
qed

lemma minutes_field: "py_int (py_floordiv (py_mod s 3600) 60) = \<lfloor>s\<rfloor> mod 3600 div 60"
proof -
  have q: "\<lfloor>s / real_of_int 3600\<rfloor> = \<lfloor>s\<rfloor> div 3600" by (rule floor_divide_real_eq_div) simp
  have "py_mod s 3600 = s - of_int (3600 * (\<lfloor>s\<rfloor> div 3600))"
    using q by (simp add: py_mod_def)
  then have "\<lfloor>py_mod s 3600\<rfloor> = \<lfloor>s\<rfloor> - 3600 * (\<lfloor>s\<rfloor> div 3600)"
    by (simp only: floor_diff_of_int)
  then have fl: "\<lfloor>py_mod s 3600\<rfloor> = \<lfloor>s\<rfloor> mod 3600"
    by (simp add: minus_mult_div_eq_mod)
  have "\<lfloor>py_mod s 3600 / real_of_int 60\<rfloor> = \<lfloor>py_mod s 3600\<rfloor> div 60"
    by (rule floor_divide_real_eq_div) simp
  with fl show ?thesis by (simp add: py_floordiv_def py_int_of_int)
qed

lemma secs_floor: "\<lfloor>py_mod s 60\<rfloor> = \<lfloor>s\<rfloor> mod 60"
proof -
  have q: "\<lfloor>s / real_of_int 60\<rfloor> = \<lfloor>s\<rfloor> div 60" by (rule floor_divide_real_eq_div) simp
  have "py_mod s 60 = s - of_int (60 * (\<lfloor>s\<rfloor> div 60))"
    using q by (simp add: py_mod_def)
  then have "\<lfloor>py_mod s 60\<rfloor> = \<lfloor>s\<rfloor> - 60 * (\<lfloor>s\<rfloor> div 60)"
    by (simp only: floor_diff_of_int)
  then show ?thesis by (simp add: minus_mult_div_eq_mod)
qed

lemma secs_field: "py_int (py_mod s 60) = \<lfloor>s\<rfloor> mod 60"
proof -
  have "0 \<le> \<lfloor>py_mod s 60\<rfloor>" by (simp add: secs_floor)
  then have "0 \<le> py_mod s 60" by linarith
  then show ?thesis by (simp add: py_int_def secs_floor)
qed

lemma frac_field: "py_mod s 1 = s - of_int \<lfloor>s\<rfloor>"
  by (simp add: py_mod_def)

lemma millis_range:
  assumes acc: "fp_accurate a" and f0: "0 \<le> f" and f1: "f \<le> 1 - 1 / 2 ^ 53"
  shows "0 \<le> fmul a f 1000 \<and> fmul a f 1000 < 1000"
proof (cases "f * 1000 \<le> 1")
  case True
  from f0 have "0 \<le> f * 1000" by simp
  with True acc have "0 \<le> fmul a f 1000 \<and> fmul a f 1000 \<le> 1"
    unfolding fp_accurate_def by blast
  then show ?thesis by linarith
next
  case False
  then have one: "1 \<le> f * 1000" by simp
  from f1 have "f \<le> 1" by simp
  then have "f * 1000 \<le> 1000" by simp
  also have "(1000::real) \<le> 2 ^ 53" by simp
  finally have cap: "f * 1000 \<le> 2 ^ 53" .
  from acc one cap have e: "\<bar>fmul a f 1000 - f * 1000\<bar> \<le> f * 1000 / 2 ^ 53"
    unfolding fp_accurate_def by blast
  have small: "f * 1000 / 2 ^ 53 \<le> f * 1000" using f0 by (simp add: field_simps)
  from e have lo: "f * 1000 - f * 1000 / 2 ^ 53 \<le> fmul a f 1000"
    and hi: "fmul a f 1000 \<le> f * 1000 + f * 1000 / 2 ^ 53" by linarith+
  from lo small f0 have "0 \<le> fmul a f 1000" by linarith
  moreover have "f * 1000 + f * 1000 / 2 ^ 53 < 1000"
  proof -
    have "f * 1000 + f * 1000 / 2 ^ 53 = f * (1000 * (1 + 1 / 2 ^ 53))" by (simp add: field_simps)
    also have "\<dots> \<le> (1 - 1 / 2 ^ 53) * (1000 * (1 + 1 / 2 ^ 53))"
      using f1 by (intro mult_right_mono) simp_all
    also have "\<dots> < 1000" by simp
    finally show ?thesis .
  qed
  ultimately show ?thesis using hi by linarith
qed

lemma fp_accurate_exact: "fp_accurate exact_fp"
  by (simp add: fp_accurate_def exact_fp_def)

lemma py_int_nonneg: "0 \<le> x \<Longrightarrow> py_int x = \<lfloor>x\<rfloor>"
  by (simp add: py_int_def)

lemma hms_bounds:
  fixes n :: int
  assumes "0 \<le> n" and "n < 360000"
  shows "0 \<le> n div 3600 \<and> n div 3600 < 100 \<and>
         n div 3600 * 3600 + n mod 3600 div 60 * 60 + n mod 60 = n"
proof -
  define q where "q = n div 3600"
  define r where "r = n mod 3600"
  define m where "m = r div 60"
  define t where "t = r mod 60"
  have n: "n = 3600 * q + r" unfolding q_def r_def by simp
  have r: "0 \<le> r" "r < 3600" unfolding r_def by simp_all
  have rm: "r = 60 * m + t" unfolding m_def t_def by simp
  have t: "t = n mod 60" unfolding t_def r_def by (simp add: mod_mod_cancel)
  from n r assms have "0 \<le> q" "q < 100" by linarith+
  moreover from n rm have "q * 3600 + m * 60 + t = n" by linarith
  ultimately show ?thesis unfolding q_def m_def t r_def by simp
qed

lemma format_timestamp_closed:
  assumes "0 \<le> fmul a (s - of_int \<lfloor>s\<rfloor>) 1000"
  shows "format_timestamp a s =
           format_d 2 (\<lfloor>s\<rfloor> div 3600) @ '':'' @ format_d 2 (\<lfloor>s\<rfloor> mod 3600 div 60) @ '':'' @
           format_d 2 (\<lfloor>s\<rfloor> mod 60) @ '','' @ format_d 3 \<lfloor>fmul a (s - of_int \<lfloor>s\<rfloor>) 1000\<rfloor>"
  using assms
  by (simp add: format_timestamp_def Let_def hours_field minutes_field secs_field frac_field py_int_nonneg)

text \<open>
  C5 (counterexample). At 100 hours the hours field has three digits, so the result is
  not of the form \<open>HH:MM:SS,mmm\<close>.
\<close>

theorem format_timestamp_counterexample:
  "format_timestamp exact_fp 360000 = ''100:00:00,000'' \<and>
   length (format_timestamp exact_fp 360000) = 13"
  by code_simp

text \<open>
  C5 (amended). For every multiplication that is accurate in the sense of
  \<open>fp_accurate\<close>: a value of at least 0 and below 360000 seconds (100 hours) whose
  fractional part is at most \<open>1 - 2^-53\<close>, as that of every double is, is rendered as
  two digits of hours, minutes and seconds and three digits of milliseconds, separated by
  colons and a comma; the three first fields are those of the whole seconds truncated,
  and the milliseconds are the truncation of the product \<open>(seconds % 1) * 1000\<close> as the
  machine computes it. In particular the double nearest to 3725.4 gives
  \<open>01:02:05,400\<close> and 0 gives \<open>00:00:00,000\<close>.
\<close>

theorem format_timestamp_shape:
  assumes acc: "fp_accurate a"
  shows "(0 \<le> seconds \<and> seconds < 360000 \<and> seconds - of_int \<lfloor>seconds\<rfloor> \<le> 1 - 1 / 2 ^ 53 \<longrightarrow>
          (\<exists>h m s ms. h < 100 \<and> m < 60 \<and> s < 60 \<and> ms < 1000 \<and>
             format_timestamp a seconds =
               [digit_char (h div 10), digit_char (h mod 10), CHR '':'',
                digit_char (m div 10), digit_char (m mod 10), CHR '':'',
                digit_char (s div 10), digit_char (s mod 10), CHR '','',
                digit_char (ms div 100), digit_char (ms div 10 mod 10), digit_char (ms mod 10)] \<and>
             int (h * 3600 + m * 60 + s) = \<lfloor>seconds\<rfloor> \<and>
             int ms = \<lfloor>fmul a (seconds - of_int \<lfloor>seconds\<rfloor>) 1000\<rfloor>))
       \<and> format_timestamp a (8192241236233421 / 2199023255552) = ''01:02:05,400''
       \<and> format_timestamp a 0 = ''00:00:00,000''"
proof (intro conjI impI)
  assume h: "0 \<le> seconds \<and> seconds < 360000 \<and> seconds - of_int \<lfloor>seconds\<rfloor> \<le> 1 - 1 / 2 ^ 53"
  let ?n = "\<lfloor>seconds\<rfloor>"
  let ?f = "seconds - of_int ?n"
  let ?p = "fmul a ?f 1000"
  from h have n0: "0 \<le> ?n" and n1: "?n < 360000" by linarith+
  have f0: "0 \<le> ?f" by linarith
  from h have f1: "?f \<le> 1 - 1 / 2 ^ 53" by blast
  from millis_range[OF acc f0 f1] have p0: "0 \<le> ?p" and p1: "?p < 1000" by blast+
  then have m0: "0 \<le> \<lfloor>?p\<rfloor>" and m1: "\<lfloor>?p\<rfloor> < 1000" by linarith+
  from hms_bounds[OF n0 n1] have hh: "0 \<le> ?n div 3600" "?n div 3600 < 100"
    and sum: "?n div 3600 * 3600 + ?n mod 3600 div 60 * 60 + ?n mod 60 = ?n" by blast+
  have mm: "0 \<le> ?n mod 3600 div 60" "?n mod 3600 div 60 < 60"
    by (simp_all add: pos_imp_zdiv_nonneg_iff div_less_iff_less_mult)
  have ss: "0 \<le> ?n mod 60" "?n mod 60 < 60" by simp_all
  from mm(2) have mm2: "?n mod 3600 div 60 < 100" by (rule less_trans) simp
  from ss(2) have ss2: "?n mod 60 < 100" by (rule less_trans) simp
  have ft: "format_timestamp a seconds =
      [digit_char (nat (?n div 3600) div 10), digit_char (nat (?n div 3600) mod 10), CHR '':'',
       digit_char (nat (?n mod 3600 div 60) div 10), digit_char (nat (?n mod 3600 div 60) mod 10), CHR '':'',
       digit_char (nat (?n mod 60) div 10), digit_char (nat (?n mod 60) mod 10), CHR '','',
       digit_char (nat \<lfloor>?p\<rfloor> div 100), digit_char (nat \<lfloor>?p\<rfloor> div 10 mod 10), digit_char (nat \<lfloor>?p\<rfloor> mod 10)]"
    by (simp add: format_timestamp_closed[OF p0] format_d_2[OF hh] format_d_2[OF mm(1) mm2] format_d_2[OF ss(1) ss2]
          format_d_3[OF m0 m1])
  show "\<exists>h m s ms. h < 100 \<and> m < 60 \<and> s < 60 \<and> ms < 1000 \<and>
             format_timestamp a seconds =
               [digit_char (h div 10), digit_char (h mod 10), CHR '':'',
                digit_char (m div 10), digit_char (m mod 10), CHR '':'',
                digit_char (s div 10), digit_char (s mod 10), CHR '','',
                digit_char (ms div 100), digit_char (ms div 10 mod 10), digit_char (ms mod 10)] \<and>
             int (h * 3600 + m * 60 + s) = \<lfloor>seconds\<rfloor> \<and>
             int ms = \<lfloor>fmul a (seconds - of_int \<lfloor>seconds\<rfloor>) 1000\<rfloor>"
  proof -
    have 1: "nat (?n div 3600) < 100" using hh by simp
    have 2: "nat (?n mod 3600 div 60) < 60" using mm by simp
    have 3: "nat (?n mod 60) < 60" using ss by simp
    have 4: "nat \<lfloor>?p\<rfloor> < 1000" using m0 m1 by linarith
    have 5: "int (nat (?n div 3600) * 3600 + nat (?n mod 3600 div 60) * 60 + nat (?n mod 60)) = ?n"
      using hh mm ss sum by simp
    have 6: "int (nat \<lfloor>?p\<rfloor>) = \<lfloor>?p\<rfloor>" using m0 by simp
    from 1 2 3 4 ft 5 6 show ?thesis by blast
  qed
next
  let ?x = "8192241236233421 / 2199023255552 :: real"
  have n: "\<lfloor>?x\<rfloor> = 3725" by simp
  have f: "?x - of_int \<lfloor>?x\<rfloor> = 879609302221 / 2199023255552" unfolding n by simp
  let ?p = "fmul a (879609302221 / 2199023255552) 1000"
  define c :: real where "c = 879609302221 / 2199023255552 * 1000"
  have c0: "0 \<le> c" and c1: "1 \<le> c" and c2: "c \<le> 2 ^ 53" unfolding c_def by simp_all
  from acc c1 c2 have "\<bar>fmul a (879609302221 / 2199023255552) 1000 - c\<bar> \<le> c / 2 ^ 53"
    unfolding fp_accurate_def c_def by blast
  then have e: "\<bar>?p - c\<bar> \<le> \<bar>c\<bar> / 2 ^ 53" using c0 by simp
  have b1: "400 \<le> c - c / 2 ^ 53" unfolding c_def by simp
  have b2: "c + c / 2 ^ 53 < 401" unfolding c_def by simp
  from c0 have "\<bar>c\<bar> = c" by simp
  with e have "c - c / 2 ^ 53 \<le> ?p" and "?p \<le> c + c / 2 ^ 53" by linarith+
  with b1 b2 have lo: "400 \<le> ?p" and hi: "?p < 401" by linarith+
  then have fl: "\<lfloor>?p\<rfloor> = 400" by linarith
  from lo have p0: "0 \<le> fmul a (?x - of_int \<lfloor>?x\<rfloor>) 1000" unfolding f by linarith
  have "format_timestamp a ?x =
           format_d 2 (\<lfloor>?x\<rfloor> div 3600) @ '':'' @ format_d 2 (\<lfloor>?x\<rfloor> mod 3600 div 60) @ '':'' @
           format_d 2 (\<lfloor>?x\<rfloor> mod 60) @ '','' @ format_d 3 \<lfloor>fmul a (?x - of_int \<lfloor>?x\<rfloor>) 1000\<rfloor>"
    by (rule format_timestamp_closed[OF p0])
  also have "\<dots> = format_d 2 (\<lfloor>?x\<rfloor> div 3600) @ '':'' @ format_d 2 (\<lfloor>?x\<rfloor> mod 3600 div 60) @ '':'' @
           format_d 2 (\<lfloor>?x\<rfloor> mod 60) @ '','' @ format_d 3 400"
    by (simp only: f fl)
  also have "\<dots> = format_d 2 (3725 div 3600) @ '':'' @ format_d 2 (3725 mod 3600 div 60) @ '':'' @
           format_d 2 (3725 mod 60) @ '','' @ format_d 3 400"
    by (simp only: n)
  also have "\<dots> = ''01:02:05,400''" by code_simp
  finally show "format_timestamp a ?x = ''01:02:05,400''" .
next
  from acc have z: "fmul a 0 1000 = 0"
    unfolding fp_accurate_def by blast
  then have p0: "0 \<le> fmul a (0 - of_int \<lfloor>0::real\<rfloor>) 1000" by simp
  have "format_timestamp a 0 =
           format_d 2 (\<lfloor>0::real\<rfloor> div 3600) @ '':'' @ format_d 2 (\<lfloor>0::real\<rfloor> mod 3600 div 60) @ '':'' @
           format_d 2 (\<lfloor>0::real\<rfloor> mod 60) @ '','' @ format_d 3 \<lfloor>fmul a (0 - of_int \<lfloor>0::real\<rfloor>) 1000\<rfloor>"
    by (rule format_timestamp_closed[OF p0])
  also have "\<dots> = format_d 2 0 @ '':'' @ format_d 2 0 @ '':'' @ format_d 2 0 @ '','' @ format_d 3 0"
    by (simp add: z)
  also have "\<dots> = ''00:00:00,000''" by code_simp
  finally show "format_timestamp a 0 = ''00:00:00,000''" .
qed

text \<open>
  C5 (amended) at 3725.5 seconds with exact arithmetic.
\<close>

theorem format_timestamp_shape_witness:
  "fp_accurate exact_fp \<and> (0::real) \<le> 7451 / 2 \<and> (7451 / 2 :: real) < 360000 \<and>
   7451 / 2 - of_int \<lfloor>7451 / 2 :: real\<rfloor> \<le> (1 - 1 / 2 ^ 53 :: real) \<and>
   format_timestamp exact_fp (7451 / 2) = ''01:02:05,500''"
proof -
  have "format_timestamp exact_fp (7451 / 2) = ''01:02:05,500''" by code_simp
  with format_timestamp_shape[OF fp_accurate_exact, of "7451 / 2"] fp_accurate_exact
  show ?thesis by simp
qed

section \<open>Properties of the task and of job submission\<close>


lemma progress_trace_four:
  "progress_trace ''none'' (task_writes four_env empty_world ''url'' ''a.mp3'' ''t.txt'' ''t.srt'') =
     [(''starting'', 0), (''splitting'', 5), (''transcribing'', 10),
      (''transcribing'', 10), (''transcribing chunk 1/4'', 25),
      (''transcribing chunk 2/4'', 40), (''transcribing chunk 3/4'', 55),
      (''processing'', 50), (''processing'', 75), (''completed'', 100)]"
  by code_simp

text \<open>
  C3 (failing input). An 80 MB episode is split into four chunks. The values written
  to \<open>progress\<close> over the task's lifetime are 0, 5, 10, 10, 25, 40, 55, 50, 75, 100: the
  loop reaches 55 before the fixed checkpoint 50 of the processing step, so the sequence
  is not non-decreasing.
\<close>

theorem progress_drops:
  "map snd (progress_trace ''none'' (task_writes four_env empty_world ''url'' ''a.mp3'' ''t.txt'' ''t.srt'')) =
     [0, 5, 10, 10, 25, 40, 55, 50, 75, 100]
   \<and> \<not> sorted (map snd (progress_trace ''none''
          (task_writes four_env empty_world ''url'' ''a.mp3'' ''t.txt'' ''t.srt'')))"
  unfolding progress_trace_four by simp

lemma find_audio_none:
  "\<not> list_ex (\<lambda>enc. case enc_type enc of None \<Rightarrow> False | Some t \<Rightarrow> startswith t ''audio/'') encs \<Longrightarrow>
   find_audio encs = Inr None \<or> find_audio encs = Inl AttributeError"
  by (induction encs) (auto split: option.splits)

lemma collect_no_audio:
  "\<forall>e\<in>set entries. \<not> has_audio_enclosure e \<Longrightarrow>
   collect_episodes i entries eps = Inr eps \<or> collect_episodes i entries eps = Inl AttributeError"
proof (induction entries arbitrary: i)
  case Nil
  then show ?case by simp
next
  case (Cons e rest)
  then have rest: "\<forall>e\<in>set rest. \<not> has_audio_enclosure e" and e: "\<not> has_audio_enclosure e" by simp_all
  have "(case enclosures e of None \<Rightarrow> Inr None | Some encs \<Rightarrow> find_audio encs) = Inr None \<or>
        (case enclosures e of None \<Rightarrow> Inr None | Some encs \<Rightarrow> find_audio encs) = Inl AttributeError"
    using e find_audio_none by (auto simp: has_audio_enclosure_def split: option.splits)
  with Cons.IH[OF rest, of "i + 1"] show ?case by auto
qed

text \<open>
  C9. For every feed in which no entry carries an audio enclosure, for every episode
  index, job submission answers with an error (the response \<open>Invalid episode selection\<close>,
  or an \<open>IndexError\<close> leaving the handler when the index is negative) and leaves the
  status store unchanged: no task is created, so none is seen in any pipeline state.
\<close>

theorem no_audio_no_task:
  assumes "\<forall>e\<in>set feed. \<not> has_audio_enclosure e"
  shows "(start_transcription str_of feed episode_index task_id transcription_status =
            (BadRequest ''Invalid episode selection'', transcription_status) \<or>
          start_transcription str_of feed episode_index task_id transcription_status =
            (ServerError IndexError, transcription_status))
         \<and> (0 \<le> episode_index \<longrightarrow>
              start_transcription str_of feed episode_index task_id transcription_status =
                (BadRequest ''Invalid episode selection'', transcription_status))"
proof (cases "feed = []")
  case True
  then show ?thesis by (simp add: start_transcription_def get_episodes_from_rss_def)
next
  case False
  from collect_no_audio[OF assms, of 0 "[]"]
  consider "collect_episodes 0 feed [] = Inr []" | "collect_episodes 0 feed [] = Inl AttributeError"
    by blast
  then show ?thesis
  proof cases
    case 1
    with False show ?thesis
      by (simp add: start_transcription_def get_episodes_from_rss_def py_index_def)
  next
    case 2
    with False show ?thesis
      by (simp add: start_transcription_def get_episodes_from_rss_def)
  qed
qed

text \<open>
  C9 at a feed of two entries without audio.
\<close>

theorem no_audio_no_task_witness:
  "\<not> has_audio_enclosure (text_feed ! 0) \<and> \<not> has_audio_enclosure (text_feed ! 1) \<and>
   length text_feed = 2 \<and>
   start_transcription (\<lambda>e. ''x'') text_feed 0 ''task-1'' Map.empty =
     (BadRequest ''Invalid episode selection'', Map.empty)"
proof -
  have h: "\<forall>e\<in>set text_feed. \<not> has_audio_enclosure e"
    by (simp add: text_feed_def has_audio_enclosure_def startswith_def)
  have "\<not> has_audio_enclosure (text_feed ! 0) \<and> \<not> has_audio_enclosure (text_feed ! 1) \<and>
        length text_feed = 2"
    by (simp add: text_feed_def has_audio_enclosure_def startswith_def)
  with no_audio_no_task[OF h, of "\<lambda>e. ''x''" 0 "''task-1''" Map.empty] show ?thesis by simp
qed

end
